theory Spec2Isabelle
  imports Complex_Main "HOL-Library.Word" "HOL-Library.Multiset" "HOL-Library.Sublist"
begin

section \<open>The order registry of \<^verbatim>\<open>order_manager.cpp\<close>\<close>

subsection \<open>Data: \<^verbatim>\<open>struct Order\<close> and \<^verbatim>\<open>class OrderManager\<close>\<close>

text \<open>
  The values of a \<^verbatim>\<open>double\<close>: a finite number, read as the real number it denotes
  (\<open>Finite 0\<close> is the positive zero), the negative zero, the two infinities, and the NaNs
  with their sign bit (\<open>NaN True\<close> has it set). Which reals a \<^verbatim>\<open>double\<close> can denote,
  and how a decimal is rounded to one, is not modelled.
\<close>

datatype double = Finite real | NegZero | PosInf | NegInf | NaN bool

fun is_nan :: "double \<Rightarrow> bool" where
  "is_nan (NaN _) = True"
| "is_nan _ = False"

fun is_finite :: "double \<Rightarrow> bool" where
  "is_finite (Finite _) = True"
| "is_finite NegZero = True"
| "is_finite _ = False"

text \<open>
  The comparisons \<^verbatim>\<open><\<close> and \<^verbatim>\<open><=\<close> of two \<^verbatim>\<open>double\<close>s: false when either is a NaN;
  otherwise the order of the extended real line, on which the two zeros are equal. A value
  is placed on that line by its rank (\<open>- 1\<close> for minus infinity, \<open>1\<close> for plus infinity,
  \<open>0\<close> for the finite values) and, among the finite values, by its number.
\<close>

fun double_rank :: "double \<Rightarrow> int" where
  "double_rank NegInf = - 1"
| "double_rank PosInf = 1"
| "double_rank _ = 0"

fun double_value :: "double \<Rightarrow> real" where
  "double_value (Finite x) = x"
| "double_value _ = 0"

definition double_less :: "double \<Rightarrow> double \<Rightarrow> bool" where
  "double_less a b \<longleftrightarrow>
     \<not> is_nan a \<and> \<not> is_nan b \<and>
     (double_rank a < double_rank b \<or>
      (double_rank a = double_rank b \<and> double_value a < double_value b))"

definition double_le :: "double \<Rightarrow> double \<Rightarrow> bool" where
  "double_le a b \<longleftrightarrow>
     \<not> is_nan a \<and> \<not> is_nan b \<and>
     (double_rank a < double_rank b \<or>
      (double_rank a = double_rank b \<and> double_value a \<le> double_value b))"

text \<open>
  \<^verbatim>\<open>struct Order { uint64_t id; double price; uint32_t quantity; uint32_t side; }\<close>
  (order.hpp:15-19). The field \<^verbatim>\<open>id\<close> is named \<open>order_id\<close> here, as in the
  constructor's parameter list, because \<open>id\<close> is HOL's identity function.
\<close>

record Order =
  order_id :: "64 word"
  price :: double
  quantity :: "32 word"
  side :: "32 word"

definition is_buy :: "Order \<Rightarrow> bool" where
  "is_buy ord \<longleftrightarrow> side ord = 0"

definition is_sell :: "Order \<Rightarrow> bool" where
  "is_sell ord \<longleftrightarrow> side ord = 1"

text \<open>
  The members of \<^verbatim>\<open>OrderManager\<close> (order_manager.hpp:25-34), without the trailing
  underscore of the source's names. \<^verbatim>\<open>orders_\<close> is the unordered map from id to
  order; \<^verbatim>\<open>order_ptrs_\<close> holds pointers to the orders stored in that map, and a
  pointer to the node of key \<open>k\<close> is modelled as \<open>k\<close> itself.
\<close>

record OrderManager =
  orders :: "64 word \<rightharpoonup> Order"
  order_ptrs :: "64 word list"
  snapshot_dirty :: bool
  total_orders_added :: "64 word"
  total_orders_cancelled :: "64 word"

text \<open>The default-constructed manager (order_manager.hpp:30-37).\<close>

definition OrderManager_init :: OrderManager where
  "OrderManager_init =
     \<lparr>orders = Map.empty, order_ptrs = [], snapshot_dirty = True,
      total_orders_added = 0, total_orders_cancelled = 0\<rparr>"

subsection \<open>Operations\<close>

text \<open>
  \<^verbatim>\<open>add_order\<close> (order_manager.cpp:6-16): \<^verbatim>\<open>try_emplace\<close> inserts only when the key is
  absent and otherwise leaves the map as it is. The result is the returned \<^verbatim>\<open>bool\<close>
  and the manager after the call.
\<close>

definition add_order :: "Order \<Rightarrow> OrderManager \<Rightarrow> bool \<times> OrderManager" where
  "add_order ord m =
     (case orders m (order_id ord) of
        None \<Rightarrow>
          (True, m\<lparr>orders := (orders m)(order_id ord \<mapsto> ord),
                   total_orders_added := total_orders_added m + 1,
                   snapshot_dirty := True\<rparr>)
      | Some _ \<Rightarrow> (False, m))"

text \<open>\<^verbatim>\<open>cancel_order\<close> (order_manager.cpp:18-27).\<close>

definition cancel_order :: "64 word \<Rightarrow> OrderManager \<Rightarrow> bool \<times> OrderManager" where
  "cancel_order oid m =
     (case orders m oid of
        Some _ \<Rightarrow>
          (True, m\<lparr>orders := (orders m)(oid := None),
                   total_orders_cancelled := total_orders_cancelled m + 1,
                   snapshot_dirty := True\<rparr>)
      | None \<Rightarrow> (False, m))"

text \<open>\<^verbatim>\<open>get_order\<close> (order_manager.cpp:29-32); \<^verbatim>\<open>nullptr\<close> is \<open>None\<close>.\<close>

definition get_order :: "64 word \<Rightarrow> OrderManager \<Rightarrow> Order option" where
  "get_order oid m = orders m oid"

text \<open>\<^verbatim>\<open>size\<close> and \<^verbatim>\<open>empty\<close> (order_manager.hpp:96-101).\<close>

definition size_om :: "OrderManager \<Rightarrow> nat" where
  "size_om m = card (dom (orders m))"

definition empty_om :: "OrderManager \<Rightarrow> bool" where
  "empty_om m \<longleftrightarrow> orders m = Map.empty"

text \<open>\<^verbatim>\<open>clear\<close> (order_manager.cpp:129-135).\<close>

definition clear :: "OrderManager \<Rightarrow> OrderManager" where
  "clear m =
     m\<lparr>orders := Map.empty, order_ptrs := [], snapshot_dirty := False,
       total_orders_added := 0, total_orders_cancelled := 0\<rparr>"

subsection \<open>Reading numbers: \<^verbatim>\<open>std::stoull\<close>, \<^verbatim>\<open>std::stoul\<close>, \<^verbatim>\<open>std::stod\<close>\<close>

text \<open>
  \<^verbatim>\<open>std::stoull(token)\<close> is \<^verbatim>\<open>strtoull\<close> in base 10 on the token: white space is
  skipped, one sign is accepted, the longest run of decimal digits is read and whatever
  follows it is ignored. Without a digit it throws \<^verbatim>\<open>invalid_argument\<close>, with a value
  above \<open>2 ^ 64 - 1\<close> it throws \<^verbatim>\<open>out_of_range\<close>; both are \<open>None\<close> here, since
  \<^verbatim>\<open>parse_csv_line\<close> catches every \<^verbatim>\<open>std::exception\<close>. A minus sign negates the value
  modulo \<open>2 ^ 64\<close>.
\<close>

definition isspace :: "char \<Rightarrow> bool" where
  "isspace c \<longleftrightarrow> c \<in> set [CHR '' '', CHR 0x09, CHR 0x0A, CHR 0x0B, CHR 0x0C, CHR 0x0D]"

definition isdigit :: "char \<Rightarrow> bool" where
  "isdigit c \<longleftrightarrow> c \<in> set ''0123456789''"

definition digit_value :: "char \<Rightarrow> nat" where
  "digit_value c = of_char c - 48"

definition digits_value :: "string \<Rightarrow> nat" where
  "digits_value ds = foldl (\<lambda>a c. 10 * a + digit_value c) 0 ds"

definition strip_sign :: "string \<Rightarrow> bool \<times> string" where
  "strip_sign s =
     (case s of
        [] \<Rightarrow> (False, [])
      | c # r \<Rightarrow> if c = CHR ''-'' then (True, r) else if c = CHR ''+'' then (False, r) else (False, s))"

definition stoull :: "string \<Rightarrow> 64 word option" where
  "stoull token =
     (let (neg, s) = strip_sign (dropWhile isspace token);
          ds = takeWhile isdigit s;
          v = digits_value ds
      in if ds = [] then None
         else if 2 ^ 64 \<le> v then None
         else Some (if neg then - word_of_nat v else word_of_nat v))"

text \<open>
  \<^verbatim>\<open>std::stoul\<close> returns an \<^verbatim>\<open>unsigned long\<close>, which has 64 bits in the LP64 data model
  (Linux, macOS) assumed here; the source then narrows the result to \<^verbatim>\<open>uint32_t\<close>.
\<close>

definition stoul :: "string \<Rightarrow> 64 word option" where
  "stoul token = stoull token"

text \<open>
  \<^verbatim>\<open>std::stod\<close> is the C library's floating-point reader. It is a parameter \<open>stod\<close> of
  the model: \<open>stod token\<close> is the price read, or \<open>None\<close> where \<^verbatim>\<open>std::stod\<close> throws.
  Every theorem about the loader holds for every such \<open>stod\<close>. To evaluate the model on
  concrete lines, \<open>decimal_stod\<close> gives the value of \<^verbatim>\<open>std::stod\<close> on the tokens it is
  applied to there: digits, or digits, a point and digits (as 150.50 in the repository's
  test file), read as the decimal number they write.
\<close>

definition decimal_stod :: "string \<Rightarrow> double option" where
  "decimal_stod token =
     (let ip = takeWhile isdigit token; r = dropWhile isdigit token
      in if ip = [] then None
         else if r = [] then Some (Finite (real (digits_value ip)))
         else if hd r = CHR ''.'' \<and> tl r \<noteq> [] \<and> list_all isdigit (tl r)
           then Some (Finite (real (digits_value ip) + real (digits_value (tl r)) / 10 ^ length (tl r)))
         else None)"

subsection \<open>\<^verbatim>\<open>parse_csv_line\<close> and \<^verbatim>\<open>load_from_csv\<close>\<close>

text \<open>
  \<^verbatim>\<open>std::getline(iss, token, ',')\<close> on the rest \<open>s\<close> of the line: it fails when nothing is
  left, and otherwise delivers the text before the next comma and consumes that comma.
\<close>

definition getline_comma :: "string \<Rightarrow> (string \<times> string) option" where
  "getline_comma s =
     (if s = [] then None
      else Some (takeWhile (\<lambda>c. c \<noteq> CHR '','') s, drop 1 (dropWhile (\<lambda>c. c \<noteq> CHR '','') s)))"

text \<open>
  \<^verbatim>\<open>parse_csv_line\<close> (order_manager.cpp:150-180), in the order of the source: four times a
  token is taken and converted; \<^verbatim>\<open>nullptr\<close> is \<open>None\<close>.
\<close>

definition parse_csv_line :: "(string \<Rightarrow> double option) \<Rightarrow> string \<Rightarrow> Order option" where
  "parse_csv_line stod line =
     (case getline_comma line of None \<Rightarrow> None | Some (t1, r1) \<Rightarrow>
      (case stoull t1 of None \<Rightarrow> None | Some oid \<Rightarrow>
      (case getline_comma r1 of None \<Rightarrow> None | Some (t2, r2) \<Rightarrow>
      (case stod t2 of None \<Rightarrow> None | Some p \<Rightarrow>
      (case getline_comma r2 of None \<Rightarrow> None | Some (t3, r3) \<Rightarrow>
      (case stoul t3 of None \<Rightarrow> None | Some q \<Rightarrow>
      (case getline_comma r3 of None \<Rightarrow> None | Some (t4, r4) \<Rightarrow>
      (case stoul t4 of None \<Rightarrow> None | Some sd \<Rightarrow>
         if 1 < (ucast sd :: 32 word) then None
         else Some \<lparr>order_id = oid, price = p, quantity = ucast q, side = ucast sd\<rparr>))))))))"

text \<open>
  \<^verbatim>\<open>line.find(sub) != std::string::npos\<close>, and the header test of
  \<^verbatim>\<open>load_from_csv\<close> (order_manager.cpp:96).
\<close>

fun contains :: "string \<Rightarrow> string \<Rightarrow> bool" where
  "contains [] sub \<longleftrightarrow> sub = []"
| "contains (c # cs) sub \<longleftrightarrow> prefix sub (c # cs) \<or> contains cs sub"

definition looks_like_header :: "string \<Rightarrow> bool" where
  "looks_like_header line \<longleftrightarrow> contains line ''id'' \<or> contains line ''ID''"

text \<open>
  The statement \<^verbatim>\<open>if (order && add_order(std::move(*order))) loaded_count++;\<close> on one
  line, with \<^verbatim>\<open>loaded_count\<close> and the manager as the state.
\<close>

definition load_line :: "(string \<Rightarrow> double option) \<Rightarrow> string \<Rightarrow> nat \<times> OrderManager \<Rightarrow> nat \<times> OrderManager" where
  "load_line stod line acc =
     (case parse_csv_line stod line of
        None \<Rightarrow> acc
      | Some ord \<Rightarrow>
          (let (added, m') = add_order ord (snd acc)
           in (if added then fst acc + 1 else fst acc, m')))"

text \<open>The \<^verbatim>\<open>while\<close> loop over the remaining lines (order_manager.cpp:107-114).\<close>

fun process_lines :: "(string \<Rightarrow> double option) \<Rightarrow> string list \<Rightarrow> nat \<times> OrderManager \<Rightarrow> nat \<times> OrderManager" where
  "process_lines stod [] acc = acc"
| "process_lines stod (line # ls) acc =
     (if line = [] then process_lines stod ls acc
      else process_lines stod ls (load_line stod line acc))"

text \<open>
  The body of \<^verbatim>\<open>load_from_csv\<close> after the file is open, on the lines that the successive
  \<^verbatim>\<open>std::getline(file, line)\<close> calls deliver. When the file has no line at all the first
  call leaves \<^verbatim>\<open>line\<close> empty.
\<close>

definition load_lines :: "(string \<Rightarrow> double option) \<Rightarrow> string list \<Rightarrow> OrderManager \<Rightarrow> nat \<times> OrderManager" where
  "load_lines stod ls m =
     (let line = (case ls of [] \<Rightarrow> [] | l # _ \<Rightarrow> l);
          acc = (if looks_like_header line then (0, m) else load_line stod line (0, m))
      in process_lines stod (drop 1 ls) acc)"




text \<open>
  The \<open>n\<close>-th comma-separated field of a line (counted from 0), and the lines at which the
  loader is evaluated below.
\<close>

fun csv_field :: "nat \<Rightarrow> string \<Rightarrow> string" where
  "csv_field 0 line = takeWhile (\<lambda>c. c \<noteq> CHR '','') line"
| "csv_field (Suc n) line = csv_field n (drop 1 (dropWhile (\<lambda>c. c \<noteq> CHR '','') line))"


definition bid_line :: string where
  "bid_line = ''1,100,10,0,bid''"

subsection \<open>\<^verbatim>\<open>print_snapshot\<close>\<close>

text \<open>
  Following the pointer \<open>p\<close> stored in \<^verbatim>\<open>order_ptrs_\<close>. A pointer to an erased node
  dangles; \<open>print_snapshot\<close> below only holds when no pointer of the cache does.
\<close>

definition deref :: "OrderManager \<Rightarrow> 64 word \<Rightarrow> Order" where
  "deref m p = the (orders m p)"

text \<open>
  \<^verbatim>\<open>rebuild_snapshot_cache\<close> (order_manager.cpp:137-148). The loop visits every element of
  the unordered map once, in an order that the container does not specify, so the call is a
  relation between the manager before and after: a clean cache is kept, a dirty one is
  replaced by some enumeration of the keys.
\<close>

definition rebuild_snapshot_cache :: "OrderManager \<Rightarrow> OrderManager \<Rightarrow> bool" where
  "rebuild_snapshot_cache m m' \<longleftrightarrow>
     (if \<not> snapshot_dirty m then m' = m
      else distinct (order_ptrs m') \<and> set (order_ptrs m') = dom (orders m) \<and>
           m' = m\<lparr>order_ptrs := order_ptrs m', snapshot_dirty := False\<rparr>)"

text \<open>The comparison passed to \<^verbatim>\<open>std::sort\<close> (order_manager.cpp:56-65).\<close>

definition snapshot_before :: "Order \<Rightarrow> Order \<Rightarrow> bool" where
  "snapshot_before a b =
     (if is_buy a \<noteq> is_buy b then is_buy a
      else if is_buy a then double_less (price b) (price a)
      else double_less (price a) (price b))"

text \<open>
  \<^verbatim>\<open>std::sort\<close> requires the comparison to be a strict weak ordering of the elements it
  sorts: irreflexive, transitive, and with a transitive incomparability. Then its result is
  some permutation of the input in which no element comes after one that the comparison
  puts behind it; the sort is not stable. Without a strict weak ordering the behaviour of
  \<^verbatim>\<open>std::sort\<close> is undefined.
\<close>

definition strict_weak_order :: "('a \<Rightarrow> 'a \<Rightarrow> bool) \<Rightarrow> 'a list \<Rightarrow> bool" where
  "strict_weak_order cmp xs \<longleftrightarrow>
     (\<forall>a \<in> set xs. \<not> cmp a a) \<and>
     (\<forall>a \<in> set xs. \<forall>b \<in> set xs. \<forall>c \<in> set xs. cmp a b \<and> cmp b c \<longrightarrow> cmp a c) \<and>
     (\<forall>a \<in> set xs. \<forall>b \<in> set xs. \<forall>c \<in> set xs.
        \<not> cmp a b \<and> \<not> cmp b a \<and> \<not> cmp b c \<and> \<not> cmp c b \<longrightarrow> \<not> cmp a c \<and> \<not> cmp c a)"

definition std_sort :: "('a \<Rightarrow> 'a \<Rightarrow> bool) \<Rightarrow> 'a list \<Rightarrow> 'a list \<Rightarrow> bool" where
  "std_sort cmp xs ys \<longleftrightarrow> mset ys = mset xs \<and> sorted_wrt (\<lambda>a b. \<not> cmp b a) ys"

text \<open>
  Stream output with the default format state: an unsigned integer in decimal, \<^verbatim>\<open>std::setw\<close>
  (right-aligned, padded with spaces, never truncating), and a \<^verbatim>\<open>double\<close> under
  \<^verbatim>\<open>std::fixed << std::setprecision(2)\<close>, which prints a finite value rounded to two
  decimals, an exact tie going to the even digit, with the sign of the value before
  rounding; an infinity is printed as \<^verbatim>\<open>inf\<close> and a NaN as \<^verbatim>\<open>nan\<close>, each with its sign.
\<close>

definition digit_char :: "nat \<Rightarrow> char" where
  "digit_char d = ''0123456789'' ! d"

fun show_nat :: "nat \<Rightarrow> string" where
  "show_nat n = (if n < 10 then [digit_char n] else show_nat (n div 10) @ [digit_char (n mod 10)])"

declare show_nat.simps [simp del]

definition setw :: "nat \<Rightarrow> string \<Rightarrow> string" where
  "setw w s = replicate (w - length s) (CHR '' '') @ s"

definition round_half_even :: "real \<Rightarrow> int" where
  "round_half_even x =
     (let f = \<lfloor>x\<rfloor>; d = x - of_int f
      in if d < 1 / 2 then f else if 1 / 2 < d then f + 1 else if even f then f else f + 1)"

definition fixed2 :: "real \<Rightarrow> string" where
  "fixed2 x =
     (let n = nat (round_half_even (\<bar>x\<bar> * 100))
      in (if x < 0 then ''-'' else []) @ show_nat (n div 100) @ ''.''
         @ [digit_char (n mod 100 div 10), digit_char (n mod 10)])"

fun put_fixed2 :: "double \<Rightarrow> string" where
  "put_fixed2 (Finite x) = fixed2 x"
| "put_fixed2 NegZero = ''-0.00''"
| "put_fixed2 PosInf = ''inf''"
| "put_fixed2 NegInf = ''-inf''"
| "put_fixed2 (NaN sign_bit) = (if sign_bit then ''-nan'' else ''nan'')"

definition endl :: string where
  "endl = [CHR 0x0A]"

text \<open>One line per order (order_manager.cpp:67-72), and the whole text written to the stream.\<close>

definition snapshot_row :: "Order \<Rightarrow> string" where
  "snapshot_row ord =
     setw 12 (show_nat (unat (order_id ord))) @ setw 12 (put_fixed2 (price ord))
     @ setw 12 (show_nat (unat (quantity ord)))
     @ setw 8 (if is_buy ord then ''BUY'' else ''SELL'') @ endl"

definition snapshot_banner :: "nat \<Rightarrow> string" where
  "snapshot_banner n =
     endl @ ''=== ORDER BOOK SNAPSHOT ==='' @ endl
     @ ''Total Active Orders: '' @ show_nat n @ endl @ endl"

definition snapshot_columns :: string where
  "snapshot_columns =
     setw 12 ''Order ID'' @ setw 12 ''Price'' @ setw 12 ''Quantity'' @ setw 8 ''Side'' @ endl
     @ replicate 44 (CHR ''-'') @ endl"

definition snapshot_text :: "Order list \<Rightarrow> string" where
  "snapshot_text sorted_orders =
     snapshot_banner (length sorted_orders)
     @ (if sorted_orders = [] then ''No active orders.'' @ endl
        else snapshot_columns @ concat (map snapshot_row sorted_orders) @ endl)"

text \<open>
  \<^verbatim>\<open>print_snapshot\<close> (order_manager.cpp:34-75) relates the manager \<open>m\<close> to the manager
  \<open>m'\<close> after the call (the cache is \<^verbatim>\<open>mutable\<close>), the sorted vector
  \<^verbatim>\<open>sorted_orders\<close> and the text \<open>os\<close> written. When the comparison is no strict weak
  ordering of the orders to sort (which takes a NaN price), the call of \<^verbatim>\<open>std::sort\<close> is
  undefined and nothing is said of the vector and the text.
\<close>

definition print_snapshot :: "OrderManager \<Rightarrow> OrderManager \<Rightarrow> Order list \<Rightarrow> string \<Rightarrow> bool" where
  "print_snapshot m m' sorted_orders os \<longleftrightarrow>
     rebuild_snapshot_cache m m' \<and> set (order_ptrs m') \<subseteq> dom (orders m')
     \<and> (strict_weak_order snapshot_before (map (deref m') (order_ptrs m')) \<longrightarrow>
          std_sort snapshot_before (map (deref m') (order_ptrs m')) sorted_orders
          \<and> os = snapshot_text sorted_orders)"

text \<open>A cache that is not marked dirty enumerates the keys of the map.\<close>

definition cache_valid :: "OrderManager \<Rightarrow> bool" where
  "cache_valid m \<longleftrightarrow>
     snapshot_dirty m \<or> (distinct (order_ptrs m) \<and> set (order_ptrs m) = dom (orders m))"

text \<open>A second buy order at the price of order 1, and a buy order at a better price.\<close>

definition tie_2 :: Order where
  "tie_2 = \<lparr>order_id = 2, price = Finite 100, quantity = 30, side = 0\<rparr>"

definition buy_3 :: Order where
  "buy_3 = \<lparr>order_id = 3, price = Finite 101.5, quantity = 7, side = 0\<rparr>"

subsection \<open>Sequences of calls\<close>

text \<open>A caller submitting a list of orders one after the other, ignoring the results.\<close>

fun submit_all :: "Order list \<Rightarrow> OrderManager \<Rightarrow> OrderManager" where
  "submit_all [] m = m"
| "submit_all (ord # os) m = submit_all os (snd (add_order ord m))"

text \<open>The total quantity of the orders stored in the book.\<close>

definition resting_quantity :: "OrderManager \<Rightarrow> nat" where
  "resting_quantity m = (\<Sum>k \<in> dom (orders m). unat (quantity (the (orders m k))))"

definition submitted_quantity :: "Order list \<Rightarrow> nat" where
  "submitted_quantity os = sum_list (map (\<lambda>ord. unat (quantity ord)) os)"

text \<open>The calls of the claim about the counters, and a run of them.\<close>

datatype call = Add Order | Cancel "64 word" | Clear

fun do_call :: "call \<Rightarrow> OrderManager \<Rightarrow> OrderManager" where
  "do_call (Add ord) m = snd (add_order ord m)"
| "do_call (Cancel oid) m = snd (cancel_order oid m)"
| "do_call Clear m = clear m"

fun run_calls :: "call list \<Rightarrow> OrderManager \<Rightarrow> OrderManager" where
  "run_calls [] m = m"
| "run_calls (c # cs) m = run_calls cs (do_call c m)"

text \<open>The two orders of the marketable-pair scenario.\<close>

definition buy_1 :: Order where
  "buy_1 = \<lparr>order_id = 1, price = Finite 100, quantity = 50, side = 0\<rparr>"

definition sell_2 :: Order where
  "sell_2 = \<lparr>order_id = 2, price = Finite 100, quantity = 30, side = 1\<rparr>"

text \<open>Two orders that violate the positivity the specification asks of a submission.\<close>

definition zero_qty_order :: Order where
  "zero_qty_order = \<lparr>order_id = 5, price = Finite 100, quantity = 0, side = 0\<rparr>"

definition negative_price_order :: Order where
  "negative_price_order = \<lparr>order_id = 6, price = Finite (- 1), quantity = 10, side = 1\<rparr>"


section \<open>Properties\<close>

subsection \<open>Basic facts about the operations\<close>

lemma add_order_fresh:
  "orders m (order_id ord) = None \<Longrightarrow>
   add_order ord m =
     (True, m\<lparr>orders := (orders m)(order_id ord \<mapsto> ord),
              total_orders_added := total_orders_added m + 1,
              snapshot_dirty := True\<rparr>)"
  by (simp add: add_order_def)


lemma cancel_order_live:
  "orders m oid = Some old \<Longrightarrow>
   cancel_order oid m =
     (True, m\<lparr>orders := (orders m)(oid := None),
              total_orders_cancelled := total_orders_cancelled m + 1,
              snapshot_dirty := True\<rparr>)"
  by (simp add: cancel_order_def)

lemma cancel_order_absent:
  "orders m oid = None \<Longrightarrow> cancel_order oid m = (False, m)"
  by (simp add: cancel_order_def)

lemma finite_dom_orders: "finite (dom (orders m))"
  by (rule finite_subset [OF subset_UNIV]) simp

lemma card_dom_remove:
  assumes "oid \<in> dom (orders m)"
  shows "card (dom (orders m) - {oid}) + 1 = card (dom (orders m))"
  using card_Suc_Diff1 [OF finite_dom_orders assms] by simp

lemma resting_quantity_add:
  assumes "orders m (order_id ord) = None"
  shows "resting_quantity (snd (add_order ord m)) = resting_quantity m + unat (quantity ord)"
proof -
  have notin: "order_id ord \<notin> dom (orders m)"
    using assms by (simp add: domIff)
  have "(\<Sum>k \<in> dom (orders m). unat (quantity (the (((orders m)(order_id ord \<mapsto> ord)) k))))
        = (\<Sum>k \<in> dom (orders m). unat (quantity (the (orders m k))))"
    using notin by (intro sum.cong) auto
  then show ?thesis
    using notin by (simp add: add_order_fresh [OF assms] resting_quantity_def finite_dom_orders)
qed

lemma submit_all_conserves:
  "distinct (map order_id os) \<Longrightarrow> \<forall>ord \<in> set os. orders m (order_id ord) = None \<Longrightarrow>
   resting_quantity (submit_all os m) = resting_quantity m + submitted_quantity os"
proof (induction os arbitrary: m)
  case Nil
  then show ?case by (simp add: submitted_quantity_def)
next
  case (Cons ord os)
  have fresh: "orders m (order_id ord) = None"
    using Cons.prems(2) by simp
  have rest: "\<forall>x \<in> set os. orders (snd (add_order ord m)) (order_id x) = None"
    using Cons.prems by (force simp: add_order_fresh [OF fresh] image_iff)
  have "resting_quantity (submit_all os (snd (add_order ord m)))
        = resting_quantity (snd (add_order ord m)) + submitted_quantity os"
    using Cons.prems(1) rest by (intro Cons.IH) simp_all
  then show ?case
    by (simp add: resting_quantity_add [OF fresh] submitted_quantity_def)
qed





subsection \<open>Facts about the CSV loader\<close>

lemma parse_csv_line_empty: "parse_csv_line stod [] = None"
  by (simp add: parse_csv_line_def getline_comma_def)

lemma load_line_empty: "load_line stod [] acc = acc"
  by (simp add: load_line_def parse_csv_line_empty)

lemma load_line_rejected: "parse_csv_line stod line = None \<Longrightarrow> load_line stod line acc = acc"
  by (simp add: load_line_def)

lemma process_lines_Cons:
  "process_lines stod (line # ls) acc = process_lines stod ls (load_line stod line acc)"
  by (simp add: load_line_empty)

lemma process_lines_append:
  "process_lines stod (xs @ ys) acc = process_lines stod ys (process_lines stod xs acc)"
  by (induction xs arbitrary: acc) simp_all

lemma process_lines_skip:
  assumes "parse_csv_line stod line = None"
  shows "process_lines stod (pre @ line # post) acc = process_lines stod (pre @ post) acc"
  by (simp add: process_lines_append process_lines_Cons load_line_rejected [OF assms]
      del: process_lines.simps)









lemma parse_csv_line_bad_id:
  assumes "stoull (csv_field 0 line) = None"
  shows "parse_csv_line stod line = None"
  using assms by (simp add: parse_csv_line_def getline_comma_def)

lemma load_lines_Cons:
  "load_lines stod (line # ls) m =
     (if looks_like_header line then process_lines stod ls (0, m)
      else process_lines stod (line # ls) (0, m))"
  by (simp add: load_lines_def process_lines_Cons del: process_lines.simps)





lemma csv_field_numerals:
  "csv_field 1 line = csv_field 0 (drop 1 (dropWhile (\<lambda>c. c \<noteq> CHR '','') line))"
  "csv_field 2 line = csv_field 1 (drop 1 (dropWhile (\<lambda>c. c \<noteq> CHR '','') line))"
  "csv_field 3 line = csv_field 2 (drop 1 (dropWhile (\<lambda>c. c \<noteq> CHR '','') line))"
  by (simp_all add: eval_nat_numeral)

lemmas csv_eval = csv_field_numerals
  parse_csv_line_def getline_comma_def stoull_def stoul_def decimal_stod_def strip_sign_def
  isspace_def isdigit_def digits_value_def digit_value_def load_line_def load_lines_def
  looks_like_header_def add_order_def OrderManager_init_def



lemma csv_field_0_empty: "csv_field 0 [] = []"
  by simp






lemma ucast_small:
  fixes sd :: "64 word"
  assumes "sd < 2 ^ 32"
  shows "unat (ucast sd :: 32 word) = unat sd"
proof -
  have "unat sd < 2 ^ 32"
    using assms by (simp add: word_less_nat_alt)
  then show ?thesis
    by (simp add: unsigned_ucast_eq take_bit_nat_eq_self)
qed


subsection \<open>Facts about the snapshot\<close>

lemma snapshot_before_irrefl: "\<not> snapshot_before a a"
  by (simp add: snapshot_before_def double_less_def)

lemma snapshot_before_trans:
  "snapshot_before a b \<Longrightarrow> snapshot_before b c \<Longrightarrow> snapshot_before a c"
  unfolding snapshot_before_def double_less_def
  by (cases "is_buy a"; cases "is_buy b"; cases "is_buy c"; simp; linarith)

lemma snapshot_before_incomparable:
  assumes "\<not> is_nan (price b)"
    and "\<not> snapshot_before a b" "\<not> snapshot_before b a"
    and "\<not> snapshot_before b c" "\<not> snapshot_before c b"
  shows "\<not> snapshot_before a c \<and> \<not> snapshot_before c a"
  using assms unfolding snapshot_before_def double_less_def
  by (cases "is_buy a"; cases "is_buy b"; cases "is_buy c"; simp; linarith)

lemma snapshot_before_strict_weak_order:
  assumes "\<forall>ord \<in> set xs. \<not> is_nan (price ord)"
  shows "strict_weak_order snapshot_before xs"
  unfolding strict_weak_order_def
  using assms snapshot_before_irrefl snapshot_before_trans snapshot_before_incomparable
  by blast

lemma rebuild_snapshot_cache_fields:
  assumes "rebuild_snapshot_cache m m'"
  shows "orders m' = orders m" and "snapshot_dirty m \<Longrightarrow> \<not> snapshot_dirty m'"
proof -
  have eq: "snapshot_dirty m \<Longrightarrow>
      m' = m\<lparr>order_ptrs := order_ptrs m', snapshot_dirty := False\<rparr>"
    using assms by (simp add: rebuild_snapshot_cache_def)
  show "orders m' = orders m"
  proof (cases "snapshot_dirty m")
    case True
    have "orders m' = orders (m\<lparr>order_ptrs := order_ptrs m', snapshot_dirty := False\<rparr>)"
      using eq [OF True] by simp
    then show ?thesis by simp
  next
    case False
    then show ?thesis using assms by (simp add: rebuild_snapshot_cache_def)
  qed
  show "\<not> snapshot_dirty m'" if "snapshot_dirty m"
  proof -
    have "snapshot_dirty m'
        = snapshot_dirty (m\<lparr>order_ptrs := order_ptrs m', snapshot_dirty := False\<rparr>)"
      using eq [OF that] by simp
    then show ?thesis by simp
  qed
qed

lemma rebuild_snapshot_cache_valid:
  assumes "cache_valid m" "rebuild_snapshot_cache m m'"
  shows "distinct (order_ptrs m')" and "set (order_ptrs m') = dom (orders m)"
  using assms by (cases "snapshot_dirty m"; simp add: rebuild_snapshot_cache_def cache_valid_def)+

lemma deref_image_dom: "deref m ` dom (orders m) = ran (orders m)"
  by (force simp: deref_def ran_def dom_def image_iff)

lemma print_snapshot_sorted:
  assumes "cache_valid m" "print_snapshot m m' sorted_orders os"
    and "\<forall>ord \<in> ran (orders m). \<not> is_nan (price ord)"
  shows "mset sorted_orders = mset (map (deref m) (order_ptrs m'))"
    and "sorted_wrt (\<lambda>a b. \<not> snapshot_before b a) sorted_orders"
    and "os = snapshot_text sorted_orders"
    and "set (map (deref m) (order_ptrs m')) = ran (orders m)"
    and "length (order_ptrs m') = size_om m"
proof -
  have rb: "rebuild_snapshot_cache m m'"
    using assms(2) by (simp add: print_snapshot_def)
  note v = rebuild_snapshot_cache_valid [OF assms(1) rb]
  have d: "deref m' = deref m"
    using rebuild_snapshot_cache_fields(1) [OF rb] by (simp add: deref_def fun_eq_iff)
  show s: "set (map (deref m) (order_ptrs m')) = ran (orders m)"
    using v(2) by (simp add: deref_image_dom)
  show "length (order_ptrs m') = size_om m"
    using v by (simp add: size_om_def distinct_card [symmetric])
  have "strict_weak_order snapshot_before (map (deref m) (order_ptrs m'))"
    using assms(3) s by (intro snapshot_before_strict_weak_order) simp
  then have "std_sort snapshot_before (map (deref m) (order_ptrs m')) sorted_orders
      \<and> os = snapshot_text sorted_orders"
    using assms(2) by (simp add: print_snapshot_def d)
  then show "mset sorted_orders = mset (map (deref m) (order_ptrs m'))"
    and "sorted_wrt (\<lambda>a b. \<not> snapshot_before b a) sorted_orders"
    and "os = snapshot_text sorted_orders"
    by (simp_all add: std_sort_def)
qed

lemma print_snapshot_lists_all:
  assumes "cache_valid m" "print_snapshot m m' sorted_orders os"
    and "\<forall>ord \<in> ran (orders m). \<not> is_nan (price ord)"
  shows "set sorted_orders = ran (orders m)" and "length sorted_orders = size_om m"
proof -
  note p = print_snapshot_sorted [OF assms]
  have "set sorted_orders = set (map (deref m) (order_ptrs m'))"
    using p(1) by (metis set_mset_mset)
  then show "set sorted_orders = ran (orders m)"
    using p(4) by simp
  have "length sorted_orders = length (map (deref m) (order_ptrs m'))"
    using p(1) by (metis size_mset)
  then show "length sorted_orders = size_om m"
    using p(5) by simp
qed

lemma std_sort_buys_first:
  assumes "sorted_wrt (\<lambda>a b. \<not> snapshot_before b a) ys"
  shows "sorted_wrt (\<lambda>a b. is_buy b \<longrightarrow> is_buy a) ys"
  using assms
  by (rule sorted_wrt_mono_rel [rotated]) (auto simp: snapshot_before_def split: if_splits)

lemma std_sort_buys_descending:
  assumes "sorted_wrt (\<lambda>a b. \<not> snapshot_before b a) ys"
    and "\<forall>ord \<in> set ys. \<not> is_nan (price ord)"
  shows "sorted_wrt (\<lambda>a b. double_le (price b) (price a)) (filter is_buy ys)"
proof -
  have "sorted_wrt (\<lambda>a b. \<not> snapshot_before b a) (filter is_buy ys)"
    using assms(1) by (rule sorted_wrt_filter)
  then show ?thesis
  proof (rule sorted_wrt_mono_rel [rotated])
    fix a b
    assume "a \<in> set (filter is_buy ys)" "b \<in> set (filter is_buy ys)"
      "\<not> snapshot_before b a"
    then show "double_le (price b) (price a)"
      using assms(2)
      by (auto simp: snapshot_before_def double_less_def double_le_def split: if_splits)
  qed
qed

lemma std_sort_sells_ascending:
  assumes "sorted_wrt (\<lambda>a b. \<not> snapshot_before b a) ys"
    and "\<forall>ord \<in> set ys. \<not> is_nan (price ord)"
  shows "sorted_wrt (\<lambda>a b. double_le (price a) (price b)) (filter (\<lambda>a. \<not> is_buy a) ys)"
proof -
  have "sorted_wrt (\<lambda>a b. \<not> snapshot_before b a) (filter (\<lambda>a. \<not> is_buy a) ys)"
    using assms(1) by (rule sorted_wrt_filter)
  then show ?thesis
  proof (rule sorted_wrt_mono_rel [rotated])
    fix a b
    assume "a \<in> set (filter (\<lambda>a. \<not> is_buy a) ys)" "b \<in> set (filter (\<lambda>a. \<not> is_buy a) ys)"
      "\<not> snapshot_before b a"
    then show "double_le (price a) (price b)"
      using assms(2)
      by (auto simp: snapshot_before_def double_less_def double_le_def split: if_splits)
  qed
qed

lemma cache_valid_init: "cache_valid OrderManager_init"
  by (simp add: cache_valid_def OrderManager_init_def)

lemma cache_valid_do_call: "cache_valid m \<Longrightarrow> cache_valid (do_call c m)"
  by (cases c)
    (auto simp: cache_valid_def add_order_def cancel_order_def clear_def split: option.splits)

lemma cache_valid_run_calls: "cache_valid m \<Longrightarrow> cache_valid (run_calls cs m)"
  by (induction cs arbitrary: m) (simp_all add: cache_valid_do_call)

lemma cache_valid_print_snapshot:
  assumes "cache_valid m" "print_snapshot m m' sorted_orders os"
  shows "cache_valid m'"
proof -
  have rb: "rebuild_snapshot_cache m m'"
    using assms(2) by (simp add: print_snapshot_def)
  show ?thesis
    using rebuild_snapshot_cache_valid [OF assms(1) rb] rebuild_snapshot_cache_fields(1) [OF rb]
    by (simp add: cache_valid_def)
qed

lemma digit_char_facts:
  assumes "d < 10"
  shows "isdigit (digit_char d)" and "digit_value (digit_char d) = d"
    and "\<not> isspace (digit_char d)" and "digit_char d \<noteq> CHR ''-''" and "digit_char d \<noteq> CHR ''+''"
proof -
  have "d \<in> {0, 1, 2, 3, 4, 5, 6, 7, 8, 9}"
    using assms by auto
  then show "isdigit (digit_char d)" and "digit_value (digit_char d) = d"
    and "\<not> isspace (digit_char d)" and "digit_char d \<noteq> CHR ''-''" and "digit_char d \<noteq> CHR ''+''"
    by (auto simp: digit_char_def isdigit_def isspace_def digit_value_def)
qed

lemma show_nat_digits: "show_nat n \<noteq> [] \<and> list_all isdigit (show_nat n)"
proof (induction n rule: show_nat.induct)
  case (1 n)
  show ?case
  proof (cases "n < 10")
    case True
    then show ?thesis
      by (subst show_nat.simps, subst show_nat.simps) (simp add: digit_char_facts)
  next
    case False
    then show ?thesis
      using "1.IH"
      by (subst show_nat.simps, subst (2) show_nat.simps) (simp add: digit_char_facts)
  qed
qed

lemma digits_value_snoc: "digits_value (xs @ [c]) = 10 * digits_value xs + digit_value c"
  by (simp add: digits_value_def)

lemma digits_value_show_nat: "digits_value (show_nat n) = n"
proof (induction n rule: show_nat.induct)
  case (1 n)
  show ?case
  proof (cases "n < 10")
    case True
    then show ?thesis
      by (subst show_nat.simps) (simp add: digits_value_def digit_char_facts)
  next
    case False
    then show ?thesis
      using "1.IH"
      by (subst show_nat.simps) (simp add: digits_value_snoc digit_char_facts)
  qed
qed

lemma length_show_nat: "n < 10 ^ k \<Longrightarrow> 0 < k \<Longrightarrow> length (show_nat n) \<le> k"
proof (induction n arbitrary: k rule: show_nat.induct)
  case (1 n)
  show ?case
  proof (cases "n < 10")
    case True
    then show ?thesis
      using "1.prems" by (subst show_nat.simps) simp
  next
    case False
    obtain j where k: "k = Suc j"
      using "1.prems"(2) by (cases k) auto
    have j: "0 < j"
      using False "1.prems"(1) k by (cases j) auto
    have "n div 10 < 10 ^ j"
      using "1.prems"(1) k by (simp add: less_mult_imp_div_less mult.commute)
    then have "length (show_nat (n div 10)) \<le> j"
      using "1.IH" [OF False _ j] by simp
    then show ?thesis
      using False k by (subst show_nat.simps) simp
  qed
qed

lemma dropWhile_replicate: "P c \<Longrightarrow> dropWhile P (replicate k c @ xs) = dropWhile P xs"
  by (induction k) simp_all

lemma isspace_space: "isspace (CHR '' '')"
  by (simp add: isspace_def)

lemma stoull_setw_show_nat:
  assumes "n < 2 ^ 64"
  shows "stoull (setw w (show_nat n)) = Some (word_of_nat n)"
proof -
  obtain d ds where ds: "show_nat n = d # ds"
    using show_nat_digits [of n] by (cases "show_nat n") auto
  have all: "list_all isdigit (d # ds)"
    using show_nat_digits [of n] ds by simp
  then have d: "\<not> isspace d" "d \<noteq> CHR ''-''" "d \<noteq> CHR ''+''"
    by (auto simp: isdigit_def isspace_def)
  have "dropWhile isspace (setw w (show_nat n)) = d # ds"
    using d(1) by (simp add: setw_def ds dropWhile_replicate [of isspace "CHR '' ''", OF isspace_space])
  moreover have "strip_sign (d # ds) = (False, d # ds)"
    using d by (simp add: strip_sign_def)
  moreover have "takeWhile isdigit (d # ds) = d # ds"
    using all by (simp add: list_all_iff)
  moreover have "digits_value (d # ds) = n"
    using digits_value_show_nat [of n] ds by simp
  ultimately show ?thesis
    using assms by (simp add: stoull_def)
qed

lemma round_half_even_near: "\<bar>real_of_int (round_half_even y) - y\<bar> \<le> 1 / 2"
proof -
  have "of_int \<lfloor>y\<rfloor> \<le> y" "y < of_int \<lfloor>y\<rfloor> + 1"
    by linarith+
  then show ?thesis
    by (auto simp: round_half_even_def Let_def)
qed

lemma round_half_even_nonneg: "0 \<le> y \<Longrightarrow> 0 \<le> round_half_even y"
proof -
  assume "0 \<le> y"
  then have "0 \<le> \<lfloor>y\<rfloor>" by simp
  then show ?thesis
    by (auto simp: round_half_even_def Let_def)
qed

lemma two_digits_mod: "10 * ((n::nat) mod 100 div 10) + n mod 10 = n mod 100"
proof -
  have "n mod 100 mod 10 = n mod 10"
    by (simp add: mod_mod_cancel)
  moreover have "n mod 100 div 10 * 10 + n mod 100 mod 10 = n mod 100"
    by (rule div_mult_mod_eq)
  ultimately show ?thesis
    by linarith
qed

lemma hundredth_near:
  fixes q r y :: real
  assumes "\<bar>q * 100 + r - y * 100\<bar> \<le> 1 / 2"
  shows "\<bar>q + r / 100 - y\<bar> \<le> 1 / 200"
proof -
  have "- (1 / 2) \<le> q * 100 + r - y * 100" "q * 100 + r - y * 100 \<le> 1 / 2"
    using assms by linarith+
  then have "- (q + r / 100 - y) \<le> 1 / 200" "q + r / 100 - y \<le> 1 / 200"
    by (simp_all add: field_simps)
  then show ?thesis
    by (intro abs_leI)
qed

lemma fixed2_value:
  "\<exists>whole d1 d2. fixed2 x = (if x < 0 then ''-'' else []) @ whole @ [CHR ''.'', d1, d2]
     \<and> whole \<noteq> [] \<and> list_all isdigit whole \<and> isdigit d1 \<and> isdigit d2
     \<and> \<bar>real (digits_value whole) + real (digits_value [d1, d2]) / 100 - \<bar>x\<bar>\<bar> \<le> 1 / 200"
proof -
  define n where "n = nat (round_half_even (\<bar>x\<bar> * 100))"
  define whole where "whole = show_nat (n div 100)"
  define a where "a = n mod 100 div 10"
  define b where "b = n mod 10"
  have ab: "a < 10" "b < 10"
    by (simp_all add: a_def b_def less_mult_imp_div_less)
  have f: "fixed2 x = (if x < 0 then ''-'' else []) @ whole @ [CHR ''.'', digit_char a, digit_char b]"
    by (simp add: fixed2_def n_def whole_def a_def b_def Let_def)
  have w: "whole \<noteq> []" "list_all isdigit whole" "digits_value whole = n div 100"
    using show_nat_digits [of "n div 100"] digits_value_show_nat [of "n div 100"]
    by (simp_all add: whole_def)
  have "digits_value [digit_char a, digit_char b] = 10 * a + b"
    using ab by (simp add: digits_value_def digit_char_facts)
  also have "\<dots> = n mod 100"
    unfolding a_def b_def by (rule two_digits_mod)
  finally have frac: "digits_value [digit_char a, digit_char b] = n mod 100" .
  have "0 \<le> round_half_even (\<bar>x\<bar> * 100)"
    by (rule round_half_even_nonneg) simp
  then have n: "real n = real_of_int (round_half_even (\<bar>x\<bar> * 100))"
    by (simp add: n_def)
  have "n div 100 * 100 + n mod 100 = n"
    by simp
  then have "real (n div 100 * 100 + n mod 100) = real n"
    by (rule arg_cong)
  then have split: "real (n div 100) * 100 + real (n mod 100) = real n"
    by (simp only: of_nat_add of_nat_mult of_nat_numeral)
  have near: "\<bar>real n - \<bar>x\<bar> * 100\<bar> \<le> 1 / 2"
    using round_half_even_near [of "\<bar>x\<bar> * 100"] by (simp only: n)
  define q where "q = real (n div 100)"
  define r where "r = real (n mod 100)"
  define y where "y = \<bar>x\<bar>"
  have "\<bar>q * 100 + r - y * 100\<bar> \<le> 1 / 2"
    using near split by (simp only: q_def r_def y_def)
  then have "\<bar>q + r / 100 - y\<bar> \<le> 1 / 200"
    by (rule hundredth_near)
  then have v: "\<bar>real (digits_value whole) + real (digits_value [digit_char a, digit_char b]) / 100 - \<bar>x\<bar>\<bar>
      \<le> 1 / 200"
    by (simp only: w(3) frac q_def r_def y_def)
  have "isdigit (digit_char a)" "isdigit (digit_char b)"
    using ab by (simp_all only: digit_char_facts(1))
  then show ?thesis
    using f w(1,2) v by blast
qed

lemma put_fixed2_finite:
  assumes "is_finite p"
  shows "\<exists>sgn whole d1 d2. put_fixed2 p = sgn @ whole @ [CHR ''.'', d1, d2]
     \<and> (sgn = [] \<or> sgn = ''-'')
     \<and> (double_value p < 0 \<longrightarrow> sgn = ''-'') \<and> (0 < double_value p \<longrightarrow> sgn = [])
     \<and> whole \<noteq> [] \<and> list_all isdigit whole \<and> isdigit d1 \<and> isdigit d2
     \<and> \<bar>real (digits_value whole) + real (digits_value [d1, d2]) / 100 - \<bar>double_value p\<bar>\<bar> \<le> 1 / 200"
proof (cases p)
  case (Finite x)
  obtain whole d1 d2 where
    "fixed2 x = (if x < 0 then ''-'' else []) @ whole @ [CHR ''.'', d1, d2]"
    "whole \<noteq> []" "list_all isdigit whole" "isdigit d1" "isdigit d2"
    "\<bar>real (digits_value whole) + real (digits_value [d1, d2]) / 100 - \<bar>x\<bar>\<bar> \<le> 1 / 200"
    using fixed2_value [of x] by blast
  then show ?thesis
    unfolding Finite
    by (intro exI [of _ "if x < 0 then ''-'' else []"] exI [of _ whole] exI [of _ d1] exI [of _ d2])
      simp
next
  case NegZero
  have "put_fixed2 NegZero = ''-'' @ ''0'' @ [CHR ''.'', CHR ''0'', CHR ''0'']"
    by simp
  moreover have "list_all isdigit ''0''" "isdigit (CHR ''0'')"
    "digits_value ''0'' = 0" "digits_value ''00'' = 0"
    by (simp_all add: isdigit_def digits_value_def digit_value_def)
  ultimately show ?thesis
    unfolding NegZero
    by (intro exI [of _ "''-''"] exI [of _ "''0''"] exI [of _ "CHR ''0''"]) simp
qed (use assms in simp_all)

lemma length_setw_fit: "length s \<le> w \<Longrightarrow> length (setw w s) = w"
  by (simp add: setw_def)

lemma setw_spaces: "\<exists>pad. setw w s = pad @ s \<and> set pad \<subseteq> {CHR '' ''}"
  by (auto simp: setw_def)

lemma side_label: "setw 8 (if is_buy ord then ''BUY'' else ''SELL'')
    = (if side ord = 0 then ''     BUY'' else ''    SELL'')"
  by (simp add: setw_def is_buy_def eval_nat_numeral)

lemma four_columns:
  assumes "length A = 12" "length B = 12" "length C = 12"
  shows "take 12 (A @ B @ C @ D) = A" and "take 12 (drop 12 (A @ B @ C @ D)) = B"
    and "take 12 (drop 24 (A @ B @ C @ D)) = C" and "drop 36 (A @ B @ C @ D) = D"
  using assms by simp_all

lemma length_quantity_text: "length (show_nat (unat (q :: 32 word))) \<le> 12"
proof -
  have "unat q < 2 ^ 32"
    using unsigned_less [of q] by simp
  then have "unat q < 10 ^ 12"
    by simp
  then show ?thesis
    by (rule length_show_nat) simp
qed

lemma snapshot_row_fixed_width:
  assumes "unat (order_id ord) < 10 ^ 12" "length (put_fixed2 (price ord)) \<le> 12"
  shows "length (snapshot_row ord) = 45"
    and "take 12 (snapshot_row ord) = setw 12 (show_nat (unat (order_id ord)))"
    and "take 12 (drop 12 (snapshot_row ord)) = setw 12 (put_fixed2 (price ord))"
    and "take 12 (drop 24 (snapshot_row ord)) = setw 12 (show_nat (unat (quantity ord)))"
    and "drop 36 (snapshot_row ord) = (if side ord = 0 then ''     BUY'' else ''    SELL'') @ endl"
proof -
  define A where "A = setw 12 (show_nat (unat (order_id ord)))"
  define B where "B = setw 12 (put_fixed2 (price ord))"
  define C where "C = setw 12 (show_nat (unat (quantity ord)))"
  define D where "D = (if side ord = 0 then ''     BUY'' else ''    SELL'') @ endl"
  have row: "snapshot_row ord = A @ B @ C @ D"
    by (simp only: snapshot_row_def side_label A_def B_def C_def D_def append_assoc)
  have "length (show_nat (unat (order_id ord))) \<le> 12"
    using assms(1) by (rule length_show_nat) simp
  then have A: "length A = 12"
    unfolding A_def by (rule length_setw_fit)
  have B: "length B = 12"
    unfolding B_def using assms(2) by (rule length_setw_fit)
  have C: "length C = 12"
    unfolding C_def using length_quantity_text by (rule length_setw_fit)
  have D: "length D = 9"
    by (simp add: D_def endl_def)
  show "length (snapshot_row ord) = 45"
    by (simp add: row A B C D)
  show "take 12 (snapshot_row ord) = setw 12 (show_nat (unat (order_id ord)))"
    unfolding row four_columns(1) [OF A B C] by (simp only: A_def)
  show "take 12 (drop 12 (snapshot_row ord)) = setw 12 (put_fixed2 (price ord))"
    unfolding row four_columns(2) [OF A B C] by (simp only: B_def)
  show "take 12 (drop 24 (snapshot_row ord)) = setw 12 (show_nat (unat (quantity ord)))"
    unfolding row four_columns(3) [OF A B C] by (simp only: C_def)
  show "drop 36 (snapshot_row ord) = (if side ord = 0 then ''     BUY'' else ''    SELL'') @ endl"
    unfolding row four_columns(4) [OF A B C] by (simp only: D_def)
qed

lemma stoull_id_column: "stoull (setw w (show_nat (unat (i :: 64 word)))) = Some i"
proof -
  have "unat i < 2 ^ 64"
    using unsigned_less [of i] by simp
  then have "stoull (setw w (show_nat (unat i))) = Some (word_of_nat (unat i))"
    by (rule stoull_setw_show_nat)
  then show ?thesis by simp
qed

lemma stoul_quantity_column:
  "map_option ucast (stoul (setw w (show_nat (unat (q :: 32 word))))) = Some q"
proof -
  have lt: "unat q < 2 ^ 32"
    using unsigned_less [of q] by simp
  then have "unat q < 2 ^ 64"
    by simp
  then have s: "stoul (setw w (show_nat (unat q))) = Some (word_of_nat (unat q) :: 64 word)"
    unfolding stoul_def by (rule stoull_setw_show_nat)
  define X :: "64 word" where "X = word_of_nat (unat q)"
  have "unat X = unat q mod 2 ^ LENGTH(64)"
    unfolding X_def by (rule unat_of_nat)
  also have "\<dots> = unat q"
    using lt by simp
  finally have ux: "unat X = unat q" .
  then have "unat X < unat (2 ^ 32 :: 64 word)"
    using lt by simp
  then have "X < 2 ^ 32"
    by (simp only: word_less_nat_alt)
  then have "unat (ucast X :: 32 word) = unat q"
    using ucast_small [of X] ux by simp
  then have "(ucast X :: 32 word) = q"
    by (simp only: word_unat_eq_iff)
  then show ?thesis
    by (simp add: s X_def)
qed

lemma snapshot_row_untruncated:
  "\<exists>pad1 pad2 pad3.
     snapshot_row ord =
       pad1 @ show_nat (unat (order_id ord)) @ pad2 @ put_fixed2 (price ord)
       @ pad3 @ show_nat (unat (quantity ord))
       @ (if side ord = 0 then ''     BUY'' else ''    SELL'') @ endl
     \<and> set (pad1 @ pad2 @ pad3) \<subseteq> {CHR '' ''}"
proof -
  obtain p1 where p1: "setw 12 (show_nat (unat (order_id ord))) = p1 @ show_nat (unat (order_id ord))"
      "set p1 \<subseteq> {CHR '' ''}"
    using setw_spaces by blast
  obtain p2 where p2: "setw 12 (put_fixed2 (price ord)) = p2 @ put_fixed2 (price ord)"
      "set p2 \<subseteq> {CHR '' ''}"
    using setw_spaces by blast
  obtain p3 where p3: "setw 12 (show_nat (unat (quantity ord))) = p3 @ show_nat (unat (quantity ord))"
      "set p3 \<subseteq> {CHR '' ''}"
    using setw_spaces by blast
  have "snapshot_row ord =
       p1 @ show_nat (unat (order_id ord)) @ p2 @ put_fixed2 (price ord)
       @ p3 @ show_nat (unat (quantity ord))
       @ (if side ord = 0 then ''     BUY'' else ''    SELL'') @ endl"
    by (simp only: snapshot_row_def side_label p1(1) p2(1) p3(1) append_assoc)
  moreover have "set (p1 @ p2 @ p3) \<subseteq> {CHR '' ''}"
    using p1(2) p2(2) p3(2) by simp
  ultimately show ?thesis by blast
qed

lemma setw_pads:
  "\<exists>pad. setw w s = pad @ s \<and> set pad \<subseteq> {CHR '' ''} \<and> length (setw w s) = max w (length s)"
  by (auto simp: setw_def)

lemma snapshot_row_columns:
  assumes "unat (order_id ord) < 10 ^ 12 \<and> length (put_fixed2 (price ord)) \<le> 12"
  shows "length (snapshot_row ord) = 45
     \<and> stoull (take 12 (snapshot_row ord)) = Some (order_id ord)
     \<and> take 12 (drop 12 (snapshot_row ord)) = setw 12 (put_fixed2 (price ord))
     \<and> map_option ucast (stoul (take 12 (drop 24 (snapshot_row ord)))) = Some (quantity ord)
     \<and> drop 36 (snapshot_row ord) = (if side ord = 0 then ''     BUY'' else ''    SELL'') @ endl"
proof -
  from assms have a: "unat (order_id ord) < 10 ^ 12" and b: "length (put_fixed2 (price ord)) \<le> 12"
    by simp_all
  note w = snapshot_row_fixed_width [OF a b]
  show ?thesis
    unfolding w by (simp only: stoull_id_column stoul_quantity_column simp_thms)
qed

lemmas snapshot_eval =
  print_snapshot_def rebuild_snapshot_cache_def std_sort_def snapshot_before_def deref_def
  cache_valid_def add_order_def OrderManager_init_def buy_1_def sell_2_def tie_2_def buy_3_def
  is_buy_def double_less_def strict_weak_order_def

subsection \<open>C1: the marketable pair\<close>

text \<open>
  C1, as stated, fails: \<^verbatim>\<open>add_order\<close> performs no matching. After the Buy with id 1,
  price 100, quantity 50 and the Sell with id 2, price 100, quantity 30, order 1 does not rest
  with quantity 20, and order 2 does rest.
\<close>

theorem marketable_pair_no_fill_counterexample:
  "map_option quantity (orders (submit_all [buy_1, sell_2] OrderManager_init) 1) \<noteq> Some 20
   \<and> orders (submit_all [buy_1, sell_2] OrderManager_init) 2 \<noteq> None"
  by (simp add: add_order_def OrderManager_init_def buy_1_def sell_2_def)

text \<open>
  C1, amended: from the empty book both submissions are accepted (each call returns
  \<^verbatim>\<open>true\<close>), nothing is matched, and afterwards the book holds exactly order 1 with its
  full quantity 50 and order 2 with its full quantity 30.
\<close>

theorem marketable_pair_both_rest:
  "fst (add_order buy_1 OrderManager_init)
   \<and> fst (add_order sell_2 (snd (add_order buy_1 OrderManager_init)))
   \<and> orders (submit_all [buy_1, sell_2] OrderManager_init) = [1 \<mapsto> buy_1, 2 \<mapsto> sell_2]
   \<and> quantity buy_1 = 50 \<and> quantity sell_2 = 30"
  by (simp add: add_order_def OrderManager_init_def buy_1_def sell_2_def)

subsection \<open>C2: quantity conservation\<close>

text \<open>
  C2: for every sequence of submissions with pairwise distinct ids, applied to the empty
  book, the quantities resting in the book add up to the quantities submitted. The source
  emits no Fill event (\<^verbatim>\<open>add_order\<close> returns a \<^verbatim>\<open>bool\<close> and nothing else), so the
  filled quantity of the claim is the empty sum. Positive prices and quantities are not
  needed.
\<close>

theorem quantity_conservation:
  assumes "distinct (map order_id os)"
  shows "resting_quantity (submit_all os OrderManager_init) = submitted_quantity os"
  using submit_all_conserves [OF assms, of OrderManager_init]
  by (simp add: OrderManager_init_def resting_quantity_def)

text \<open>
  The theorem at the two orders of the scenario: 50 + 30 rest.
\<close>

theorem quantity_conservation_witness:
  "distinct (map order_id [buy_1, sell_2])
   \<and> resting_quantity (submit_all [buy_1, sell_2] OrderManager_init) = 80"
  using quantity_conservation [of "[buy_1, sell_2]"]
  by (simp add: submitted_quantity_def buy_1_def sell_2_def)

subsection \<open>C3: a duplicate id is rejected\<close>

text \<open>
  C3: submitting an order whose id is live is rejected (\<^verbatim>\<open>add_order\<close> returns
  \<^verbatim>\<open>false\<close>, which the header documents as "ID already exists") and the whole manager,
  the stored order included, is unchanged.
\<close>

theorem duplicate_id_rejected:
  assumes "order_id ord \<in> dom (orders m)"
  shows "add_order ord m = (False, m)"
  using assms by (auto simp: add_order_def)

text \<open>
  The theorem at a second order with id 1 (another price, quantity and side): the stored
  order 1 is still the first one.
\<close>

theorem duplicate_id_rejected_witness:
  "order_id (sell_2\<lparr>order_id := 1\<rparr>) \<in> dom (orders (snd (add_order buy_1 OrderManager_init)))
   \<and> add_order (sell_2\<lparr>order_id := 1\<rparr>) (snd (add_order buy_1 OrderManager_init))
       = (False, snd (add_order buy_1 OrderManager_init))
   \<and> orders (snd (add_order buy_1 OrderManager_init)) 1 = Some buy_1"
proof -
  have h: "order_id (sell_2\<lparr>order_id := 1\<rparr>) \<in> dom (orders (snd (add_order buy_1 OrderManager_init)))"
    by (simp add: add_order_def OrderManager_init_def buy_1_def sell_2_def)
  show ?thesis
    using h duplicate_id_rejected [OF h]
    by (simp add: add_order_def OrderManager_init_def buy_1_def)
qed

subsection \<open>C4: no validation of price and quantity\<close>

text \<open>
  C4, as stated, fails: an order with quantity 0 and an order with a negative price are both
  accepted and stored in the empty book.
\<close>

theorem invalid_order_accepted_counterexample:
  "fst (add_order zero_qty_order OrderManager_init)
   \<and> get_order 5 (snd (add_order zero_qty_order OrderManager_init)) = Some zero_qty_order
   \<and> fst (add_order negative_price_order OrderManager_init)
   \<and> get_order 6 (snd (add_order negative_price_order OrderManager_init)) = Some negative_price_order"
  by (simp add: add_order_def get_order_def OrderManager_init_def zero_qty_order_def
      negative_price_order_def)

text \<open>
  C4, amended: \<^verbatim>\<open>add_order\<close> validates neither price nor quantity. It succeeds exactly
  when the id is not live, whatever the price and the quantity, and then stores the order as
  given; a duplicate id is its only rejection.
\<close>

theorem add_order_no_validation:
  "fst (add_order ord m) = (order_id ord \<notin> dom (orders m))
   \<and> (order_id ord \<notin> dom (orders m) \<longrightarrow>
        get_order (order_id ord) (snd (add_order ord m)) = Some ord)"
  by (auto simp: add_order_def get_order_def split: option.splits)

text \<open>
  The theorem at the order with quantity 0.
\<close>

theorem add_order_no_validation_witness:
  "order_id zero_qty_order \<notin> dom (orders OrderManager_init)
   \<and> quantity zero_qty_order = 0
   \<and> fst (add_order zero_qty_order OrderManager_init)
   \<and> get_order (order_id zero_qty_order) (snd (add_order zero_qty_order OrderManager_init))
       = Some zero_qty_order"
  using add_order_no_validation [of zero_qty_order OrderManager_init]
  by (simp add: OrderManager_init_def zero_qty_order_def)

subsection \<open>C5: cancel\<close>

text \<open>
  C5: cancelling an id that is not in the book fails (\<^verbatim>\<open>cancel_order\<close> returns
  \<^verbatim>\<open>false\<close>) and leaves the whole manager unchanged; cancelling an id that is in the book
  removes exactly that entry of the map and no other and marks the snapshot cache dirty (so
  that the erased order is never read through it), and a second cancel of the same id
  fails and changes nothing.
\<close>

theorem cancel_order_atomic:
  "(orders m oid = None \<longrightarrow> cancel_order oid m = (False, m))
   \<and> (orders m oid \<noteq> None \<longrightarrow>
        fst (cancel_order oid m)
        \<and> orders (snd (cancel_order oid m)) = (orders m)(oid := None)
        \<and> get_order oid (snd (cancel_order oid m)) = None
        \<and> size_om (snd (cancel_order oid m)) + 1 = size_om m
        \<and> snapshot_dirty (snd (cancel_order oid m))
        \<and> cancel_order oid (snd (cancel_order oid m)) = (False, snd (cancel_order oid m)))"
proof (cases "orders m oid")
  case None
  then show ?thesis by (simp add: cancel_order_absent)
next
  case (Some old)
  have "oid \<in> dom (orders m)" using Some by (simp add: domIff)
  then have "card (dom (orders m) - {oid}) + 1 = card (dom (orders m))"
    by (rule card_dom_remove)
  then show ?thesis
    using Some by (simp add: cancel_order_live [OF Some] cancel_order_def get_order_def size_om_def)
qed

text \<open>
  The theorem at a book holding order 1: cancelling 999 fails, cancelling 1 empties the
  book.
\<close>

theorem cancel_order_atomic_witness:
  "orders (snd (add_order buy_1 OrderManager_init)) 1 \<noteq> None
   \<and> orders (snd (add_order buy_1 OrderManager_init)) 999 = None
   \<and> cancel_order 999 (snd (add_order buy_1 OrderManager_init))
       = (False, snd (add_order buy_1 OrderManager_init))
   \<and> fst (cancel_order 1 (snd (add_order buy_1 OrderManager_init)))
   \<and> orders (snd (cancel_order 1 (snd (add_order buy_1 OrderManager_init)))) = Map.empty"
  using cancel_order_atomic [of "snd (add_order buy_1 OrderManager_init)" 1]
    cancel_order_atomic [of "snd (add_order buy_1 OrderManager_init)" 999]
  by (simp add: add_order_def OrderManager_init_def buy_1_def)

subsection \<open>C6: submit then cancel\<close>

text \<open>
  C6: for every book and every order whose id is not live, submitting the order and then
  cancelling the same id gives back the book of before: the same map of resting orders,
  hence the same number of orders, the same prices and the same total quantity. Of the
  manager around the book, the two statistics counters each advance by one and the snapshot
  cache is marked dirty; nothing else changes.
\<close>

theorem submit_cancel_round_trip:
  assumes "order_id ord \<notin> dom (orders m)"
  shows "fst (add_order ord m)
         \<and> fst (cancel_order (order_id ord) (snd (add_order ord m)))
         \<and> orders (snd (cancel_order (order_id ord) (snd (add_order ord m)))) = orders m
         \<and> size_om (snd (cancel_order (order_id ord) (snd (add_order ord m)))) = size_om m
         \<and> resting_quantity (snd (cancel_order (order_id ord) (snd (add_order ord m))))
             = resting_quantity m
         \<and> snd (cancel_order (order_id ord) (snd (add_order ord m)))
             = m\<lparr>total_orders_added := total_orders_added m + 1,
                 total_orders_cancelled := total_orders_cancelled m + 1,
                 snapshot_dirty := True\<rparr>"
proof -
  have fresh: "orders m (order_id ord) = None"
    using assms by (simp add: domIff)
  have "((orders m)(order_id ord \<mapsto> ord))(order_id ord := None) = orders m"
    using fresh by (simp add: fun_upd_idem)
  then show ?thesis
    by (simp add: add_order_fresh [OF fresh] cancel_order_def size_om_def resting_quantity_def)
qed

text \<open>
  The theorem at a book holding order 1, with order 2 submitted and cancelled.
\<close>

theorem submit_cancel_round_trip_witness:
  "order_id sell_2 \<notin> dom (orders (snd (add_order buy_1 OrderManager_init)))
   \<and> orders (snd (cancel_order 2 (snd (add_order sell_2 (snd (add_order buy_1 OrderManager_init))))))
       = [1 \<mapsto> buy_1]"
  using submit_cancel_round_trip [of sell_2 "snd (add_order buy_1 OrderManager_init)"]
  by (simp add: add_order_def OrderManager_init_def buy_1_def sell_2_def)

subsection \<open>C7: the loader skips the lines it cannot parse\<close>




subsection \<open>C8: the header line\<close>

text \<open>
  C8, as stated, fails: a first line whose id field is the number 1 is skipped as a header
  because the text \<^verbatim>\<open>id\<close> occurs later in it, although the same line is loaded as an
  order when it is not the first.
\<close>

theorem csv_header_detection_counterexample:
  "stoull (csv_field 0 bid_line) = Some 1
   \<and> load_lines decimal_stod [bid_line] OrderManager_init = (0, OrderManager_init)
   \<and> fst (load_lines decimal_stod [''1,100,10,0'', bid_line] OrderManager_init) = 1
   \<and> fst (load_lines decimal_stod [''7,100,10,0'', bid_line] OrderManager_init) = 2"
  by (simp add: csv_eval bid_line_def)

text \<open>
  C8, amended: the first line is skipped as a header if and only if it contains \<^verbatim>\<open>id\<close>
  or \<^verbatim>\<open>ID\<close> anywhere; any other first line is processed as an order record like every
  other line. A first line whose id field does not start with a number is never loaded: it
  is skipped as a header or rejected as a record.
\<close>

theorem csv_header_detection:
  "load_lines stod [] m = (0, m)
   \<and> load_lines stod (line # ls) m =
       (if looks_like_header line then process_lines stod ls (0, m)
        else process_lines stod (line # ls) (0, m))
   \<and> (stoull (csv_field 0 line) = None \<longrightarrow>
        load_lines stod (line # ls) m = process_lines stod ls (0, m))"
proof -
  have "load_lines stod [] m = (0, m)"
    by (simp add: load_lines_def looks_like_header_def load_line_empty)
  moreover have "stoull (csv_field 0 line) = None \<Longrightarrow>
      process_lines stod (line # ls) (0, m) = process_lines stod ls (0, m)"
    using process_lines_skip [of stod line "[]" ls "(0, m)"] parse_csv_line_bad_id [of line stod]
    by simp
  ultimately show ?thesis
    by (simp add: load_lines_Cons del: process_lines.simps)
qed

text \<open>
  The theorem at the header of the test file, at a first line with a non-numeric id and no
  \<^verbatim>\<open>id\<close> in it, and at a first line that is a record.
\<close>

theorem csv_header_detection_witness:
  "looks_like_header ''id,price,quantity,side''
   \<and> \<not> looks_like_header ''abc,100,10,0''
   \<and> stoull (csv_field 0 ''abc,100,10,0'') = None
   \<and> fst (load_lines decimal_stod [''id,price,quantity,side'', ''1,150.50,100,0''] OrderManager_init) = 1
   \<and> fst (load_lines decimal_stod [''abc,100,10,0'', ''1,150.50,100,0''] OrderManager_init) = 1
   \<and> fst (load_lines decimal_stod [''2,100,10,0'', ''1,150.50,100,0''] OrderManager_init) = 2"
  using csv_header_detection [of decimal_stod OrderManager_init "''id,price,quantity,side''" "[''1,150.50,100,0'']"]
   csv_header_detection [of decimal_stod OrderManager_init "''abc,100,10,0''" "[''1,150.50,100,0'']"]
   csv_header_detection [of decimal_stod OrderManager_init "''2,100,10,0''" "[''1,150.50,100,0'']"]
  by (simp add: csv_eval)

subsection \<open>C9: the snapshot\<close>

text \<open>
  C9, as stated, fails: arrival order does not break ties. With two buy orders at price 100,
  order 1 submitted before order 2, a snapshot that lists order 2 first is one the code may
  print: an order records no arrival time, the map is visited in an unspecified order and
  \<^verbatim>\<open>std::sort\<close> is not stable. Both prices are finite and the comparison is a strict weak
  ordering of the two orders, so the call is defined.
\<close>

theorem snapshot_tie_order_counterexample:
  "cache_valid (submit_all [buy_1, tie_2] OrderManager_init)
   \<and> is_finite (price buy_1) \<and> is_finite (price tie_2)
   \<and> strict_weak_order snapshot_before [tie_2, buy_1]
   \<and> print_snapshot (submit_all [buy_1, tie_2] OrderManager_init)
       ((submit_all [buy_1, tie_2] OrderManager_init)\<lparr>order_ptrs := [2, 1], snapshot_dirty := False\<rparr>)
       [tie_2, buy_1] (snapshot_text [tie_2, buy_1])
   \<and> is_buy buy_1 \<and> is_buy tie_2 \<and> price tie_2 = price buy_1"
  by (simp add: snapshot_eval)

text \<open>
  C9, amended: for a book without a NaN price, the snapshot lists every active order once,
  every buy order before every other order, the buys by descending price and the others by
  ascending price; the order among equal prices is unspecified. Each order is one line of
  four right-aligned columns: the id, the price, the quantity, and the label \<^verbatim>\<open>BUY\<close> for
  side 0 and \<^verbatim>\<open>SELL\<close> otherwise. When the id has at most 12 digits and the price text at
  most 12 characters the columns are 12, 12, 12 and 8 wide, the line has 44 characters and
  a newline, and reading the id and quantity columns back with the loader's conversions
  gives the id and the quantity of the order; a longer value widens its column and is
  never cut. A finite price is printed as an optional minus sign, digits, a point and two
  digits, and the number printed is within 0.005 of the price; an infinite price is printed
  as \<^verbatim>\<open>inf\<close> or \<^verbatim>\<open>-inf\<close>.
\<close>

theorem snapshot_sorted_by_priority:
  assumes "cache_valid m" and "print_snapshot m m' sorted_orders os"
    and "\<forall>ord \<in> ran (orders m). \<not> is_nan (price ord)"
  shows "set sorted_orders = ran (orders m) \<and> length sorted_orders = size_om m
    \<and> sorted_wrt (\<lambda>a b. is_buy b \<longrightarrow> is_buy a) sorted_orders
    \<and> sorted_wrt (\<lambda>a b. double_le (price b) (price a)) (filter is_buy sorted_orders)
    \<and> sorted_wrt (\<lambda>a b. double_le (price a) (price b)) (filter (\<lambda>a. \<not> is_buy a) sorted_orders)
    \<and> os = snapshot_banner (size_om m)
            @ (if size_om m = 0 then ''No active orders.'' @ endl
               else snapshot_columns @ concat (map snapshot_row sorted_orders) @ endl)
    \<and> (\<forall>ord. unat (order_id ord) < 10 ^ 12 \<and> length (put_fixed2 (price ord)) \<le> 12 \<longrightarrow>
          length (snapshot_row ord) = 45
          \<and> stoull (take 12 (snapshot_row ord)) = Some (order_id ord)
          \<and> take 12 (drop 12 (snapshot_row ord)) = setw 12 (put_fixed2 (price ord))
          \<and> map_option ucast (stoul (take 12 (drop 24 (snapshot_row ord)))) = Some (quantity ord)
          \<and> drop 36 (snapshot_row ord)
              = (if side ord = 0 then ''     BUY'' else ''    SELL'') @ endl)
    \<and> (\<forall>ord. \<exists>pad1 pad2 pad3.
          snapshot_row ord =
            pad1 @ show_nat (unat (order_id ord)) @ pad2 @ put_fixed2 (price ord)
            @ pad3 @ show_nat (unat (quantity ord))
            @ (if side ord = 0 then ''     BUY'' else ''    SELL'') @ endl
          \<and> set (pad1 @ pad2 @ pad3) \<subseteq> {CHR '' ''})
    \<and> (\<forall>w s. \<exists>pad. setw w s = pad @ s \<and> set pad \<subseteq> {CHR '' ''}
          \<and> length (setw w s) = max w (length s))
    \<and> (\<forall>p. is_finite p \<longrightarrow>
          (\<exists>sgn whole d1 d2. put_fixed2 p = sgn @ whole @ [CHR ''.'', d1, d2]
             \<and> (sgn = [] \<or> sgn = ''-'')
             \<and> (double_value p < 0 \<longrightarrow> sgn = ''-'') \<and> (0 < double_value p \<longrightarrow> sgn = [])
             \<and> whole \<noteq> [] \<and> list_all isdigit whole \<and> isdigit d1 \<and> isdigit d2
             \<and> \<bar>real (digits_value whole) + real (digits_value [d1, d2]) / 100
                  - \<bar>double_value p\<bar>\<bar> \<le> 1 / 200))
    \<and> put_fixed2 PosInf = ''inf'' \<and> put_fixed2 NegInf = ''-inf''"
proof -
  note p = print_snapshot_sorted [OF assms]
  note all = print_snapshot_lists_all [OF assms]
  have nan: "\<forall>ord \<in> set sorted_orders. \<not> is_nan (price ord)"
    using assms(3) all(1) by simp
  have out: "os = snapshot_banner (size_om m)
            @ (if size_om m = 0 then ''No active orders.'' @ endl
               else snapshot_columns @ concat (map snapshot_row sorted_orders) @ endl)"
    by (simp add: p(3) snapshot_text_def all(2) [symmetric])
  have rows: "\<forall>ord. unat (order_id ord) < 10 ^ 12 \<and> length (put_fixed2 (price ord)) \<le> 12 \<longrightarrow>
          length (snapshot_row ord) = 45
          \<and> stoull (take 12 (snapshot_row ord)) = Some (order_id ord)
          \<and> take 12 (drop 12 (snapshot_row ord)) = setw 12 (put_fixed2 (price ord))
          \<and> map_option ucast (stoul (take 12 (drop 24 (snapshot_row ord)))) = Some (quantity ord)
          \<and> drop 36 (snapshot_row ord)
              = (if side ord = 0 then ''     BUY'' else ''    SELL'') @ endl"
    using snapshot_row_columns by blast
  have whole: "\<forall>ord. \<exists>pad1 pad2 pad3.
          snapshot_row ord =
            pad1 @ show_nat (unat (order_id ord)) @ pad2 @ put_fixed2 (price ord)
            @ pad3 @ show_nat (unat (quantity ord))
            @ (if side ord = 0 then ''     BUY'' else ''    SELL'') @ endl
          \<and> set (pad1 @ pad2 @ pad3) \<subseteq> {CHR '' ''}"
    using snapshot_row_untruncated by blast
  have pads: "\<forall>w s. \<exists>pad. setw w s = pad @ s \<and> set pad \<subseteq> {CHR '' ''}
          \<and> length (setw w s) = max w (length s)"
    using setw_pads by blast
  have decimals: "\<forall>p. is_finite p \<longrightarrow>
          (\<exists>sgn whole d1 d2. put_fixed2 p = sgn @ whole @ [CHR ''.'', d1, d2]
             \<and> (sgn = [] \<or> sgn = ''-'')
             \<and> (double_value p < 0 \<longrightarrow> sgn = ''-'') \<and> (0 < double_value p \<longrightarrow> sgn = [])
             \<and> whole \<noteq> [] \<and> list_all isdigit whole \<and> isdigit d1 \<and> isdigit d2
             \<and> \<bar>real (digits_value whole) + real (digits_value [d1, d2]) / 100
                  - \<bar>double_value p\<bar>\<bar> \<le> 1 / 200)"
    using put_fixed2_finite by blast
  have inf: "put_fixed2 PosInf = ''inf''" "put_fixed2 NegInf = ''-inf''"
    by simp_all
  note sorted = std_sort_buys_first [OF p(2)] std_sort_buys_descending [OF p(2) nan]
    std_sort_sells_ascending [OF p(2) nan]
  show ?thesis
    by (intro conjI) (fact all sorted out rows whole pads decimals inf)+
qed

text \<open>
  The theorem at a book of a sell and two buys, with the line printed for the best buy.
\<close>

theorem snapshot_sorted_by_priority_witness:
  "cache_valid (submit_all [sell_2, buy_1, buy_3] OrderManager_init)
   \<and> print_snapshot (submit_all [sell_2, buy_1, buy_3] OrderManager_init)
       ((submit_all [sell_2, buy_1, buy_3] OrderManager_init)\<lparr>order_ptrs := [1, 2, 3], snapshot_dirty := False\<rparr>)
       [buy_3, buy_1, sell_2] (snapshot_text [buy_3, buy_1, sell_2])
   \<and> size_om (submit_all [sell_2, buy_1, buy_3] OrderManager_init) = 3
   \<and> snapshot_row buy_3 = ''           3      101.50           7     BUY'' @ endl
   \<and> length (snapshot_row buy_3) = 45
   \<and> stoull (take 12 (snapshot_row buy_3)) = Some 3"
proof -
  have v: "cache_valid (submit_all [sell_2, buy_1, buy_3] OrderManager_init)"
    by (simp add: snapshot_eval)
  have p: "print_snapshot (submit_all [sell_2, buy_1, buy_3] OrderManager_init)
       ((submit_all [sell_2, buy_1, buy_3] OrderManager_init)\<lparr>order_ptrs := [1, 2, 3], snapshot_dirty := False\<rparr>)
       [buy_3, buy_1, sell_2] (snapshot_text [buy_3, buy_1, sell_2])"
    by (auto simp: snapshot_eval)
  have n: "\<forall>ord \<in> ran (orders (submit_all [sell_2, buy_1, buy_3] OrderManager_init)).
      \<not> is_nan (price ord)"
    by (auto simp: ran_def add_order_def OrderManager_init_def buy_1_def sell_2_def buy_3_def
        split: if_splits)
  have r: "snapshot_row buy_3 = ''           3      101.50           7     BUY'' @ endl"
    by (simp add: snapshot_row_def setw_def fixed2_def round_half_even_def show_nat.simps
        digit_char_def is_buy_def buy_3_def) (simp add: eval_nat_numeral)
  have f: "unat (order_id buy_3) < 10 ^ 12 \<and> length (put_fixed2 (price buy_3)) \<le> 12"
    by (simp add: buy_3_def fixed2_def round_half_even_def show_nat.simps digit_char_def)
  have i: "order_id buy_3 = 3"
    by (simp add: buy_3_def)
  note t = snapshot_sorted_by_priority [OF v p n]
  have "length [buy_3, buy_1, sell_2] = size_om (submit_all [sell_2, buy_1, buy_3] OrderManager_init)"
    using t by (elim conjE)
  then have s: "size_om (submit_all [sell_2, buy_1, buy_3] OrderManager_init) = 3"
    by simp
  have "length (snapshot_row buy_3) = 45
      \<and> stoull (take 12 (snapshot_row buy_3)) = Some (order_id buy_3)"
    using t f by blast
  then have c: "length (snapshot_row buy_3) = 45" "stoull (take 12 (snapshot_row buy_3)) = Some 3"
    by (simp_all only: i)
  show ?thesis
    by (intro conjI) (fact v p s r c)+
qed

subsection \<open>C10: the counters\<close>



end
